theory Spec2Isabelle
  imports Complex_Main "HOL-Library.Word"
begin

section \<open>JavaScript strings\<close>

text \<open>
  A JavaScript string is a sequence of UTF-16 code units; \<open>length\<close>, \<open>startsWith\<close>,
  \<open>substring\<close>, \<open>indexOf\<close> and \<open>lastIndexOf\<close> all count code units. Only a regular
  expression with the \<open>u\<close> flag reads the string as code points, pairing a high surrogate
  with the low surrogate that follows it.
\<close>

type_synonym code_unit = "16 word"
type_synonym jsstring = "code_unit list"

definition js :: "string \<Rightarrow> jsstring" where
  \<comment> \<open>an ASCII literal of the source as code units\<close>
  "js s = map of_char s"

definition LF :: code_unit where
  "LF = 0x0A"

definition SP :: code_unit where
  "SP = 0x20"

definition jsWhiteSpace :: "nat \<Rightarrow> bool" where
  \<comment> \<open>ECMAScript WhiteSpace and LineTerminator: what \<open>trim\<close> removes and what \<open>\s\<close> matches\<close>
  "jsWhiteSpace c = (c = 0x9 \<or> c = 0xA \<or> c = 0xB \<or> c = 0xC \<or> c = 0xD \<or> c = 0x20 \<or> c = 0xA0
     \<or> c = 0x1680 \<or> (0x2000 \<le> c \<and> c \<le> 0x200A) \<or> c = 0x2028 \<or> c = 0x2029 \<or> c = 0x202F
     \<or> c = 0x205F \<or> c = 0x3000 \<or> c = 0xFEFF)"

definition isWs :: "code_unit \<Rightarrow> bool" where
  "isWs u = jsWhiteSpace (unat u)"

definition trimStart :: "jsstring \<Rightarrow> jsstring" where
  "trimStart s = dropWhile isWs s"

definition trimEnd :: "jsstring \<Rightarrow> jsstring" where
  "trimEnd s = rev (dropWhile isWs (rev s))"

definition trim :: "jsstring \<Rightarrow> jsstring" where
  "trim s = trimEnd (trimStart s)"

definition startsWith :: "jsstring \<Rightarrow> jsstring \<Rightarrow> bool" where
  "startsWith s t = (take (length t) s = t)"

definition substring :: "jsstring \<Rightarrow> int \<Rightarrow> int \<Rightarrow> jsstring" where
  \<comment> \<open>\<open>s.substring(start, end)\<close>: both indices clamped to the string, swapped when out of order\<close>
  "substring s start end =
     (let len = int (length s);
          a = min (max start 0) len;
          b = min (max end 0) len;
          from = min a b;
          to = max a b
      in take (nat (to - from)) (drop (nat from) s))"

definition substringFrom :: "jsstring \<Rightarrow> int \<Rightarrow> jsstring" where
  \<comment> \<open>\<open>s.substring(start)\<close>\<close>
  "substringFrom s start = substring s start (int (length s))"

fun indexOf :: "jsstring \<Rightarrow> code_unit \<Rightarrow> int" where
  \<comment> \<open>\<open>s.indexOf(c)\<close> for a one-unit search string: the first index, or -1\<close>
  "indexOf [] c = -1"
| "indexOf (x # xs) c =
     (if x = c then 0 else (let i = indexOf xs c in if i = -1 then -1 else i + 1))"

fun scanDown :: "jsstring \<Rightarrow> code_unit \<Rightarrow> nat \<Rightarrow> int" where
  "scanDown s c 0 = (if s ! 0 = c then 0 else -1)"
| "scanDown s c (Suc i) = (if s ! Suc i = c then int (Suc i) else scanDown s c i)"

definition lastIndexOf :: "jsstring \<Rightarrow> code_unit \<Rightarrow> nat \<Rightarrow> int" where
  \<comment> \<open>\<open>s.lastIndexOf(c, position)\<close> for a one-unit search string: the search starts at
      \<open>min position (length - 1)\<close> and walks down to index 0; -1 when nothing is found\<close>
  "lastIndexOf s c position =
     (if s = [] then -1 else scanDown s c (min position (length s - 1)))"

subsection \<open>The regular expression \<open>/^[\s\p{P}]+$/u\<close>\<close>

definition isHigh :: "code_unit \<Rightarrow> bool" where
  "isHigh u = (0xD800 \<le> unat u \<and> unat u \<le> 0xDBFF)"

definition isLow :: "code_unit \<Rightarrow> bool" where
  "isLow u = (0xDC00 \<le> unat u \<and> unat u \<le> 0xDFFF)"

definition codePoint :: "code_unit \<Rightarrow> code_unit \<Rightarrow> nat" where
  "codePoint h l = 0x10000 + (unat h - 0xD800) * 0x400 + (unat l - 0xDC00)"

fun allCodePoints :: "(nat \<Rightarrow> bool) \<Rightarrow> jsstring \<Rightarrow> bool" where
  \<comment> \<open>every code point of the string is in the class; an unpaired surrogate is read as the
      code point of its own value\<close>
  "allCodePoints C [] = True"
| "allCodePoints C [u] = C (unat u)"
| "allCodePoints C (h # l # r) =
     (if isHigh h \<and> isLow l then C (codePoint h l) \<and> allCodePoints C r
      else C (unat h) \<and> allCodePoints C (l # r))"

definition spaceOrPunct :: "(nat \<Rightarrow> bool) \<Rightarrow> nat \<Rightarrow> bool" where
  \<comment> \<open>the class \<open>[\s\p{P}]\<close>; \<open>P\<close> is the Unicode table General_Category = Punctuation, which
      the engine supplies and the repository does not contain\<close>
  "spaceOrPunct P c = (jsWhiteSpace c \<or> P c)"

definition onlySpaceOrPunct :: "(nat \<Rightarrow> bool) \<Rightarrow> jsstring \<Rightarrow> bool" where
  \<comment> \<open>\<open>/^[\s\p{P}]+$/u.test(s)\<close>\<close>
  "onlySpaceOrPunct P s = (s \<noteq> [] \<and> allCodePoints (spaceOrPunct P) s)"

section \<open>ChatTextAreaAutocomplete: cleaning a suggestion\<close>

definition isUnwantedSuggestion :: "(nat \<Rightarrow> bool) \<Rightarrow> jsstring \<Rightarrow> bool" where
  "isUnwantedSuggestion P suggestion =
     (if startsWith suggestion (js ''//'') \<or> startsWith suggestion (js ''/*'')
         \<or> startsWith suggestion (js ''*'') then True
      else if startsWith suggestion (js ''#'') \<and> \<not> startsWith suggestion (js ''# '') then True
      else if length suggestion < 2 \<or> onlySpaceOrPunct P suggestion then True
      else False)"

definition stripEcho :: "jsstring \<Rightarrow> jsstring \<Rightarrow> jsstring" where
  \<comment> \<open>\<open>if (cleaned.startsWith(userText)) cleaned = cleaned.substring(userText.length)\<close>\<close>
  "stripEcho cleaned userText =
     (if startsWith cleaned userText then substringFrom cleaned (int (length userText))
      else cleaned)"

definition firstLine :: "jsstring \<Rightarrow> jsstring" where
  \<comment> \<open>the cut at the first line feed\<close>
  "firstLine cleaned =
     (let firstNewline = indexOf cleaned LF
      in if firstNewline \<noteq> -1 then substring cleaned 0 firstNewline else cleaned)"

definition capLength :: "jsstring \<Rightarrow> jsstring" where
  \<comment> \<open>the cap at 100 code units, at a space when one lies beyond index 50\<close>
  "capLength cleaned =
     (if length cleaned > 100 then
        (let lastSpace = lastIndexOf cleaned SP 100
         in if lastSpace > 50 then substring cleaned 0 lastSpace
            else substring cleaned 0 100)
      else cleaned)"

definition beforeFilter :: "jsstring \<Rightarrow> jsstring \<Rightarrow> jsstring" where
  \<comment> \<open>the value of \<open>cleaned\<close> when \<open>cleanSuggestion\<close> reaches the filter\<close>
  "beforeFilter suggestion userText =
     trimStart (firstLine (stripEcho (trim suggestion) userText))"

definition cleanSuggestion :: "(nat \<Rightarrow> bool) \<Rightarrow> jsstring \<Rightarrow> jsstring \<Rightarrow> jsstring" where
  "cleanSuggestion P suggestion userText =
     (let cleaned = beforeFilter suggestion userText
      in if isUnwantedSuggestion P cleaned then [] else capLength cleaned)"

definition punctSample :: "nat \<Rightarrow> bool" where
  \<comment> \<open>an excerpt of the Unicode table General_Category = Punctuation, for evaluating concrete
      inputs: the ASCII punctuation marks and U+10100 to U+10102 (the Aegean word separators and
      check mark, category Po); surrogate code points have category Cs and are not in the table\<close>
  "punctSample c = ((0x21 \<le> c \<and> c \<le> 0x23) \<or> (0x25 \<le> c \<and> c \<le> 0x2A) \<or> (0x2C \<le> c \<and> c \<le> 0x2F)
     \<or> c = 0x3A \<or> c = 0x3B \<or> c = 0x3F \<or> c = 0x40 \<or> (0x5B \<le> c \<and> c \<le> 0x5D) \<or> c = 0x5F
     \<or> c = 0x7B \<or> c = 0x7D \<or> (0x10100 \<le> c \<and> c \<le> 0x10102))"

definition longSample :: jsstring where
  \<comment> \<open>sixty letters a, a space, sixty letters b\<close>
  "longSample = replicate 60 0x61 @ SP # replicate 60 0x62"

section \<open>Errors and asynchronous sequences\<close>

datatype error = Error (message: jsstring)

text \<open>
  A run of an async generator, or of a function that calls a callback once per chunk: the
  values handed over, in order, and then either a normal end or a thrown error.
\<close>

datatype 'a run = Done | Throw error | Yield 'a "'a run"

fun yielded :: "'a run \<Rightarrow> 'a list" where
  "yielded Done = []"
| "yielded (Throw e) = []"
| "yielded (Yield x r) = x # yielded r"

fun ending :: "'a run \<Rightarrow> error option" where
  "ending Done = None"
| "ending (Throw e) = Some e"
| "ending (Yield x r) = ending r"

fun accumulate :: "jsstring \<Rightarrow> jsstring run \<Rightarrow> error + jsstring" where
  \<comment> \<open>the loop \<open>result += chunk\<close> over a run; a throw of the run leaves the loop\<close>
  "accumulate acc Done = Inr acc"
| "accumulate acc (Throw e) = Inl e"
| "accumulate acc (Yield chunk r) = accumulate (acc @ chunk) r"

section \<open>ChatTextAreaAutocomplete: building the prefix\<close>

record visible_range =
  startLine :: int
  endLine :: int
  content :: jsstring

record visible_editor_info =
  filePath :: jsstring
  relativePath :: jsstring
  languageId :: jsstring
  isActive :: bool
  visibleRanges :: "visible_range list"

record visible_code_context =
  timestamp :: int
  editors :: "visible_editor_info list"

fun split :: "code_unit \<Rightarrow> jsstring \<Rightarrow> jsstring list" where
  \<comment> \<open>\<open>s.split(sep)\<close> for a one-unit separator\<close>
  "split sep [] = [[]]"
| "split sep (x # xs) =
     (if x = sep then [] # split sep xs
      else (case split sep xs of [] \<Rightarrow> [[x]] | p # ps \<Rightarrow> (x # p) # ps))"

fun join :: "jsstring \<Rightarrow> jsstring list \<Rightarrow> jsstring" where
  \<comment> \<open>\<open>parts.join(sep)\<close>\<close>
  "join sep [] = []"
| "join sep [x] = x"
| "join sep (x # y # r) = x @ sep @ join sep (y # r)"

definition fileNameOf :: "jsstring \<Rightarrow> jsstring" where
  \<comment> \<open>\<open>filePath.split("/").pop() || filePath\<close>\<close>
  "fileNameOf path = (let name = last (split 0x2F path) in if name = [] then path else name)"

definition editorParts :: "visible_editor_info \<Rightarrow> jsstring list" where
  "editorParts editor =
     (LF # js ''// File: '' @ fileNameOf (filePath editor) @ js '' ('' @ languageId editor @ js '')'')
       # map content (visibleRanges editor)"

definition visibleParts :: "visible_code_context option \<Rightarrow> jsstring list" where
  "visibleParts visibleCodeContext =
     (case visibleCodeContext of
        None \<Rightarrow> []
      | Some ctx \<Rightarrow>
          if length (editors ctx) > 0
          then js ''// Code visible in editor:'' # concat (map editorParts (editors ctx))
          else [])"

definition getClipboardContext :: "error + jsstring \<Rightarrow> jsstring option" where
  \<comment> \<open>the argument is what \<open>vscode.env.clipboard.readText()\<close> gives: a text, or a rejection,
      which the \<open>catch\<close> swallows\<close>
  "getClipboardContext clipboard =
     (case clipboard of
        Inl e \<Rightarrow> None
      | Inr text \<Rightarrow> if text \<noteq> [] \<and> length text > 5 \<and> length text < 500 then Some text else None)"

definition clipboardParts :: "error + jsstring \<Rightarrow> jsstring list" where
  "clipboardParts clipboard =
     (case getClipboardContext clipboard of
        None \<Rightarrow> []
      | Some clipboardContent \<Rightarrow>
          if clipboardContent \<noteq> [] then [LF # js ''// Clipboard content:'', clipboardContent]
          else [])"

definition userParts :: "jsstring \<Rightarrow> jsstring list" where
  "userParts userText = [LF # js ''// User'' @ 0x27 # js ''s message:'', userText]"

definition buildPrefix :: "error + jsstring \<Rightarrow> jsstring \<Rightarrow> visible_code_context option \<Rightarrow> jsstring" where
  "buildPrefix clipboard userText visibleCodeContext =
     join [LF] (visibleParts visibleCodeContext @ clipboardParts clipboard @ userParts userText)"

section \<open>ChatTextAreaAutocomplete: getCompletion\<close>

text \<open>
  The class GhostModel is not part of the sources at hand. Its four members that
  \<open>getCompletion\<close> uses are parameters here, over any type \<open>'m\<close> of model states:
  \<open>reload\<close> leaves a new state and answers whether a model was loaded, or rejects, and
  \<open>generateFimResponse\<close> is the run of its calls of the chunk callback.
\<close>

record 'm ghost_model =
  loaded :: "'m \<Rightarrow> bool"
  reload :: "'m \<Rightarrow> (error + bool) \<times> 'm"
  supportsFim :: "'m \<Rightarrow> bool"
  generateFimResponse :: "'m \<Rightarrow> jsstring \<Rightarrow> jsstring \<Rightarrow> jsstring run"

record 'm completion =
  suggestion :: "error + jsstring"
  fimRequests :: "(jsstring \<times> jsstring) list"
  modelState :: "'m"

definition requestCompletion ::
  "(nat \<Rightarrow> bool) \<Rightarrow> 'm ghost_model \<Rightarrow> error + jsstring \<Rightarrow> 'm \<Rightarrow> jsstring
     \<Rightarrow> visible_code_context option \<Rightarrow> 'm completion" where
  \<comment> \<open>\<open>getCompletion\<close> from the FIM gate on\<close>
  "requestCompletion P gm clipboard m userText visibleCodeContext =
     (if \<not> supportsFim gm m then \<lparr>suggestion = Inr [], fimRequests = [], modelState = m\<rparr>
      else
        (let prefix = buildPrefix clipboard userText visibleCodeContext;
             suffix = []
         in \<lparr>suggestion =
               (case accumulate [] (generateFimResponse gm m prefix suffix) of
                  Inl e \<Rightarrow> Inl e
                | Inr response \<Rightarrow> Inr (cleanSuggestion P response userText)),
             fimRequests = [(prefix, suffix)],
             modelState = m\<rparr>))"

definition getCompletion ::
  "(nat \<Rightarrow> bool) \<Rightarrow> 'm ghost_model \<Rightarrow> error + jsstring \<Rightarrow> 'm \<Rightarrow> jsstring
     \<Rightarrow> visible_code_context option \<Rightarrow> 'm completion" where
  "getCompletion P gm clipboard m userText visibleCodeContext =
     (if \<not> loaded gm m then
        (case reload gm m of
           (Inl e, m') \<Rightarrow> \<lparr>suggestion = Inl e, fimRequests = [], modelState = m'\<rparr>
         | (Inr isLoaded, m') \<Rightarrow>
             if \<not> isLoaded then \<lparr>suggestion = Inr [], fimRequests = [], modelState = m'\<rparr>
             else requestCompletion P gm clipboard m' userText visibleCodeContext)
      else requestCompletion P gm clipboard m userText visibleCodeContext)"

section \<open>MistralHandler: fill-in-the-middle completion\<close>

record api_handler_options =
  apiModelId :: "jsstring option"
  includeMaxTokens :: bool
  modelTemperature :: "real option"
  mistralCodestralUrl :: "jsstring option"
  mistralApiKey :: jsstring

record model_info =
  info_maxTokens :: "int option"

record fim_body =
  body_model :: jsstring
  body_prompt :: jsstring
  body_suffix :: jsstring
  body_max_tokens :: int
  body_temperature :: real
  body_stream :: bool

record fim_request =
  url :: jsstring
  httpMethod :: jsstring
  body :: fim_body
  headers :: "jsstring \<rightharpoonup> jsstring"

datatype delta = Delta (delta_content: "jsstring option")

datatype choice = Choice (choice_delta: "delta option")

datatype sse_data = SseData (choices: "choice list option")

record response =
  status :: nat
  statusText :: jsstring
  bodyText :: "error + jsstring"
  events :: "sse_data run"

text \<open>
  What the handler imports from outside the sources at hand is a parameter: the default model
  id, the table of models (the entry of the default id, which the table has by its type, apart),
  the default temperature and headers, the URL constructor, \<open>fetch\<close>. The field \<open>events\<close>
  of a response is the run of \<open>streamSse\<close> over it, \<open>bodyText\<close> what \<open>response.text()\<close> gives:
  the body, or a rejection.
\<close>

record mistral_env =
  mistralDefaultModelId :: jsstring
  mistralModels :: "jsstring \<rightharpoonup> model_info"
  defaultModelInfo :: model_info
  MISTRAL_DEFAULT_TEMPERATURE :: real
  DEFAULT_HEADERS :: "jsstring \<rightharpoonup> jsstring"
  newURL :: "jsstring \<Rightarrow> jsstring \<Rightarrow> error + jsstring"
  fetch :: "fim_request \<Rightarrow> error + response"

record model_params =
  model_id :: jsstring
  info :: model_info
  maxTokens :: "int option"
  temperature :: real

definition ok :: "response \<Rightarrow> bool" where
  \<comment> \<open>\<open>response.ok\<close>: the status is in the range 200 to 299\<close>
  "ok r = (200 \<le> status r \<and> status r \<le> 299)"

fun decimal :: "nat \<Rightarrow> jsstring" where
  \<comment> \<open>a number in a template literal\<close>
  "decimal n =
     (if n < 10 then [of_nat (48 + n)] else decimal (n div 10) @ [of_nat (48 + n mod 10)])"

declare decimal.simps [simp del]

definition getModel :: "mistral_env \<Rightarrow> api_handler_options \<Rightarrow> model_params" where
  "getModel env options =
     (let id = (case apiModelId options of Some i \<Rightarrow> i | None \<Rightarrow> mistralDefaultModelId env);
          info = (case mistralModels env id of Some i \<Rightarrow> i | None \<Rightarrow> defaultModelInfo env);
          maxTokens = (if includeMaxTokens options then info_maxTokens info else None);
          temperature = (case modelTemperature options of
                           Some t \<Rightarrow> t | None \<Rightarrow> MISTRAL_DEFAULT_TEMPERATURE env)
      in \<lparr>model_id = id, info = info, maxTokens = maxTokens, temperature = temperature\<rparr>)"

definition mistralSupportsFim :: "mistral_env \<Rightarrow> api_handler_options \<Rightarrow> bool" where
  \<comment> \<open>\<open>MistralHandler.supportsFim\<close>\<close>
  "mistralSupportsFim env options =
     (let modelId = (case apiModelId options of Some i \<Rightarrow> i | None \<Rightarrow> mistralDefaultModelId env)
      in startsWith modelId (js ''codestral-''))"

definition baseUrl :: "api_handler_options \<Rightarrow> jsstring \<Rightarrow> jsstring" where
  "baseUrl options model =
     (if startsWith model (js ''codestral-'')
      then (case mistralCodestralUrl options of
              None \<Rightarrow> js ''https://codestral.mistral.ai''
            | Some u \<Rightarrow> if u = [] then js ''https://codestral.mistral.ai'' else u)
      else js ''https://api.mistral.ai'')"

definition fimRequest ::
  "mistral_env \<Rightarrow> api_handler_options \<Rightarrow> jsstring \<Rightarrow> jsstring \<Rightarrow> jsstring \<Rightarrow> fim_request" where
  \<comment> \<open>the arguments of the call of \<open>fetch\<close>\<close>
  "fimRequest env options prefix suffix endpoint =
     (let model = model_id (getModel env options);
          maxTokens = maxTokens (getModel env options);
          headers = (DEFAULT_HEADERS env)
            (js ''Content-Type'' \<mapsto> js ''application/json'',
             js ''Accept'' \<mapsto> js ''application/json'',
             js ''Authorization'' \<mapsto> js ''Bearer '' @ mistralApiKey options);
          temperature = 0.2;
          requestMaxTokens = 256
      in \<lparr>url = endpoint,
          httpMethod = js ''POST'',
          body = \<lparr>body_model = model,
                   body_prompt = prefix,
                   body_suffix = suffix,
                   body_max_tokens =
                     min requestMaxTokens
                       (case maxTokens of Some n \<Rightarrow> n | None \<Rightarrow> requestMaxTokens),
                   body_temperature = temperature,
                   body_stream = True\<rparr>,
          headers = headers\<rparr>)"

definition contentOf :: "sse_data \<Rightarrow> jsstring option" where
  \<comment> \<open>\<open>data.choices?.[0]?.delta?.content\<close>\<close>
  "contentOf data =
     (case choices data of
        None \<Rightarrow> None
      | Some cs \<Rightarrow>
          (case cs of
             [] \<Rightarrow> None
           | c # _ \<Rightarrow> (case choice_delta c of None \<Rightarrow> None | Some d \<Rightarrow> delta_content d)))"

definition hasContent :: "sse_data \<Rightarrow> bool" where
  \<comment> \<open>\<open>if (content)\<close>: present and not the empty string\<close>
  "hasContent data = (case contentOf data of None \<Rightarrow> False | Some c \<Rightarrow> c \<noteq> [])"

fun sseFragments :: "sse_data run \<Rightarrow> jsstring run" where
  \<comment> \<open>the loop over \<open>streamSse(response)\<close>\<close>
  "sseFragments Done = Done"
| "sseFragments (Throw e) = Throw e"
| "sseFragments (Yield data r) =
     (case contentOf data of
        None \<Rightarrow> sseFragments r
      | Some c \<Rightarrow> if c \<noteq> [] then Yield c (sseFragments r) else sseFragments r)"

definition failureMessage :: "response \<Rightarrow> jsstring \<Rightarrow> jsstring" where
  "failureMessage r errorText =
     js ''FIM streaming failed: '' @ decimal (status r) @ js '' '' @ statusText r
       @ js '' - '' @ errorText"

definition streamFim ::
  "mistral_env \<Rightarrow> api_handler_options \<Rightarrow> jsstring \<Rightarrow> jsstring \<Rightarrow> fim_request list \<times> jsstring run" where
  \<comment> \<open>the requests handed to \<open>fetch\<close>, and the run of the generator\<close>
  "streamFim env options prefix suffix =
     (let model = model_id (getModel env options)
      in case newURL env (js ''v1/fim/completions'') (baseUrl options model) of
           Inl e \<Rightarrow> ([], Throw e)
         | Inr endpoint \<Rightarrow>
             (let request = fimRequest env options prefix suffix endpoint
              in case fetch env request of
                   Inl e \<Rightarrow> ([request], Throw e)
                 | Inr r \<Rightarrow>
                     if \<not> ok r then
                       (case bodyText r of
                          Inl e \<Rightarrow> ([request], Throw e)
                        | Inr errorText \<Rightarrow>
                            ([request], Throw (Error (failureMessage r errorText))))
                     else ([request], sseFragments (events r))))"

definition completeFim ::
  "mistral_env \<Rightarrow> api_handler_options \<Rightarrow> jsstring \<Rightarrow> jsstring \<Rightarrow> error + jsstring" where
  "completeFim env options prefix suffix =
     accumulate [] (snd (streamFim env options prefix suffix))"

text \<open>
  Modelled from the spec: \<open>GhostModel.generateFimResponse\<close> is not in the sources at hand.
  Section 4.4 has the orchestrator open the model stream (4.2) and accumulate the fragments
  into raw text; section 4.2 has the stream fail on a response that is not 2xx. So each
  fragment of \<open>streamFim\<close> is handed to the chunk callback, in order, and the call ends as the
  stream ends.
\<close>

definition forwardFim ::
  "mistral_env \<Rightarrow> api_handler_options \<Rightarrow> jsstring \<Rightarrow> jsstring \<Rightarrow> jsstring run" where
  "forwardFim env options prefix suffix = snd (streamFim env options prefix suffix)"

definition mistralGhostModel :: "mistral_env \<Rightarrow> api_handler_options ghost_model" where
  \<comment> \<open>a loaded GhostModel over a MistralHandler\<close>
  "mistralGhostModel env =
     \<lparr>loaded = (\<lambda>options. True),
      reload = (\<lambda>options. (Inr True, options)),
      supportsFim = mistralSupportsFim env,
      generateFimResponse = forwardFim env\<rparr>"

definition sampleOptions :: api_handler_options where
  "sampleOptions =
     \<lparr>apiModelId = Some (js ''codestral-latest''),
      includeMaxTokens = True,
      modelTemperature = None,
      mistralCodestralUrl = None,
      mistralApiKey = js ''key''\<rparr>"

definition sampleEnv :: "int option \<Rightarrow> response \<Rightarrow> mistral_env" where
  \<comment> \<open>an environment whose model has the given maximum and whose endpoint gives the given
      response\<close>
  "sampleEnv maxOut r =
     \<lparr>mistralDefaultModelId = js ''codestral-latest'',
      mistralModels = Map.empty,
      defaultModelInfo = \<lparr>info_maxTokens = maxOut\<rparr>,
      MISTRAL_DEFAULT_TEMPERATURE = 0,
      DEFAULT_HEADERS = Map.empty,
      newURL = (\<lambda>path base. Inr (base @ 0x2F # path)),
      fetch = (\<lambda>request. Inr r)\<rparr>"

definition serverError :: response where
  "serverError =
     \<lparr>status = 500, statusText = js ''Internal Server Error'', bodyText = Inr (js ''overloaded''),
      events = Done\<rparr>"

definition event :: "jsstring \<Rightarrow> sse_data" where
  "event c = SseData (Some [Choice (Some (Delta (Some c)))])"

definition sampleEvents :: "sse_data run" where
  "sampleEvents =
     Yield (event (js ''wor''))
       (Yield (SseData None)
          (Yield (event [])
             (Yield (event (js ''ld'')) Done)))"

definition okResponse :: response where
  "okResponse = \<lparr>status = 200, statusText = js ''OK'', bodyText = Inr [], events = sampleEvents\<rparr>"

section \<open>Evaluation of concrete inputs\<close>

lemmas eval_defs = js_def trim_def trimStart_def trimEnd_def isWs_def jsWhiteSpace_def
  startsWith_def stripEcho_def substringFrom_def substring_def firstLine_def beforeFilter_def
  cleanSuggestion_def isUnwantedSuggestion_def onlySpaceOrPunct_def spaceOrPunct_def
  punctSample_def capLength_def isHigh_def isLow_def codePoint_def LF_def SP_def Let_def

definition badGateway :: response where
  \<comment> \<open>a response whose body cannot be read\<close>
  "badGateway =
     \<lparr>status = 502, statusText = js ''Bad Gateway'', bodyText = Inl (Error (js ''terminated'')),
      events = Done\<rparr>"

definition tableEnv :: mistral_env where
  \<comment> \<open>an environment whose table gives one model the maximum 128 and whose default entry
      has the maximum 64\<close>
  "tableEnv =
     (sampleEnv (Some 64) okResponse)
       \<lparr>mistralModels := [js ''codestral-2405'' \<mapsto> \<lparr>info_maxTokens = Some 128\<rparr>]\<rparr>"

definition tableOptions :: api_handler_options where
  "tableOptions = sampleOptions\<lparr>apiModelId := Some (js ''codestral-2405'')\<rparr>"

definition unloadable :: "bool ghost_model" where
  \<comment> \<open>a GhostModel whose state is its \<open>loaded\<close> flag and whose reload never succeeds\<close>
  "unloadable =
     \<lparr>loaded = (\<lambda>m. m),
      reload = (\<lambda>m. (Inr False, m)),
      supportsFim = (\<lambda>m. True),
      generateFimResponse = (\<lambda>m prefix suffix. Yield (js ''text'') Done)\<rparr>"

definition rejecting :: "bool ghost_model" where
  \<comment> \<open>a GhostModel whose reload rejects\<close>
  "rejecting = unloadable\<lparr>reload := (\<lambda>m. (Inl (Error (js ''no profile'')), m))\<rparr>"

definition chatOptions :: api_handler_options where
  \<comment> \<open>a model without fill-in-the-middle\<close>
  "chatOptions = sampleOptions\<lparr>apiModelId := Some (js ''mistral-large-latest'')\<rparr>"

definition sampleContext :: visible_code_context where
  "sampleContext =
     \<lparr>timestamp = 0,
      editors =
        [\<lparr>filePath = js ''/src/app/main.ts'', relativePath = js ''app/main.ts'',
          languageId = js ''typescript'', isActive = True,
          visibleRanges = [\<lparr>startLine = 0, endLine = 1, content = js ''let x = 1''\<rparr>]\<rparr>]\<rparr>"

section \<open>Properties of the string operations\<close>

lemma substring_take: "substring s 0 (int n) = take n s"
  by (simp add: substring_def Let_def min_def max_def)

lemma substringFrom_drop: "substringFrom s (int n) = drop n s"
  by (auto simp add: substringFrom_def substring_def Let_def min_def max_def)

lemma indexOf_ge: "- 1 \<le> indexOf s c"
  by (induction s) (auto simp: Let_def)

lemma indexOf_none: "(indexOf s c = - 1) = (c \<notin> set s)"
proof (induction s)
  case Nil
  show ?case by simp
next
  case (Cons x xs)
  have "- 1 \<le> indexOf xs c" by (rule indexOf_ge)
  with Cons show ?case by (auto simp: Let_def)
qed

lemma indexOf_takeWhile: "c \<in> set s \<Longrightarrow> indexOf s c = int (length (takeWhile (\<lambda>x. x \<noteq> c) s))"
proof (induction s)
  case Nil
  then show ?case by simp
next
  case (Cons x xs)
  then show ?case by (auto simp: Let_def indexOf_none)
qed

lemma firstLine_takeWhile: "firstLine s = takeWhile (\<lambda>x. x \<noteq> LF) s"
proof (cases "LF \<in> set s")
  case True
  then have "indexOf s LF = int (length (takeWhile (\<lambda>x. x \<noteq> LF) s))"
    by (rule indexOf_takeWhile)
  moreover have "take (length (takeWhile (\<lambda>x. x \<noteq> LF) s)) s = takeWhile (\<lambda>x. x \<noteq> LF) s"
    by (simp add: takeWhile_eq_take [symmetric])
  ultimately show ?thesis
    by (simp add: firstLine_def Let_def substring_take)
next
  case False
  then have idx: "indexOf s LF = - 1" by (simp add: indexOf_none)
  have tw: "takeWhile (\<lambda>x. x \<noteq> LF) s = s"
    by (rule takeWhile_eq_all_conv [THEN iffD2]) (use False in auto)
  show ?thesis by (simp add: firstLine_def idx tw)
qed

lemma stripEcho_drop: "startsWith c u \<Longrightarrow> stripEcho c u = drop (length u) c"
  by (simp add: stripEcho_def substringFrom_drop)

lemma startsWith_append: "startsWith c u \<Longrightarrow> u @ drop (length u) c = c"
  by (metis append_take_drop_id startsWith_def)

lemma scanDown_found:
  "i \<le> n \<Longrightarrow> s ! i = c \<Longrightarrow> \<forall>j. i < j \<and> j \<le> n \<longrightarrow> s ! j \<noteq> c \<Longrightarrow> scanDown s c n = int i"
proof (induction n)
  case 0
  then show ?case by simp
next
  case (Suc n)
  show ?case
  proof (cases "i = Suc n")
    case True
    with Suc.prems show ?thesis by simp
  next
    case False
    with Suc.prems have "i \<le> n" by simp
    moreover from Suc.prems False have "s ! Suc n \<noteq> c" by auto
    moreover from Suc.prems have "\<forall>j. i < j \<and> j \<le> n \<longrightarrow> s ! j \<noteq> c" by auto
    ultimately show ?thesis using Suc.IH Suc.prems(2) by simp
  qed
qed

lemma scanDown_none:
  "\<forall>j. j \<le> n \<longrightarrow> s ! j \<noteq> c \<Longrightarrow> scanDown s c n = - 1"
  by (induction n) auto

lemma scanDown_range:
  "scanDown s c n = - 1 \<or> (\<exists>i\<le>n. scanDown s c n = int i \<and> s ! i = c)"
proof (induction n)
  case 0
  show ?case by simp
next
  case (Suc n)
  show ?case
  proof (cases "s ! Suc n = c")
    case True
    then have "scanDown s c (Suc n) = int (Suc n)" by simp
    with True show ?thesis by blast
  next
    case False
    then have "scanDown s c (Suc n) = scanDown s c n" by simp
    with Suc show ?thesis by (metis le_Suc_eq)
  qed
qed

lemma scanDown_le: "scanDown s c n \<le> int n"
  using scanDown_range [of s c n] by auto

lemma substring_take_int: "0 \<le> k \<Longrightarrow> substring s 0 k = take (nat k) s"
  using substring_take [of s "nat k"] by simp

lemma lastIndexOf_found:
  assumes "100 < length c" and "i \<le> 100" and "c ! i = x"
    and "\<forall>j. i < j \<and> j \<le> 100 \<longrightarrow> c ! j \<noteq> x"
  shows "lastIndexOf c x 100 = int i"
proof -
  from assms(1) have "c \<noteq> []" and "min 100 (length c - 1) = 100" by auto
  then have "lastIndexOf c x 100 = scanDown c x 100" by (simp add: lastIndexOf_def)
  also have "\<dots> = int i" using assms(2-4) by (rule scanDown_found)
  finally show ?thesis .
qed

lemma lastIndexOf_le: "lastIndexOf c x n \<le> int n"
proof (cases "c = []")
  case True
  then show ?thesis by (simp add: lastIndexOf_def)
next
  case False
  have "scanDown c x (min n (length c - 1)) \<le> int (min n (length c - 1))" by (rule scanDown_le)
  with False show ?thesis by (simp add: lastIndexOf_def)
qed

lemma lastIndexOf_low:
  assumes "100 < length c" and "\<forall>i. 50 < i \<and> i \<le> 100 \<longrightarrow> c ! i \<noteq> x"
  shows "lastIndexOf c x 100 \<le> 50"
proof -
  from assms(1) have "c \<noteq> []" and "min 100 (length c - 1) = 100" by auto
  then have eq: "lastIndexOf c x 100 = scanDown c x 100" by (simp add: lastIndexOf_def)
  from scanDown_range [of c x 100] show ?thesis
  proof
    assume "scanDown c x 100 = - 1"
    with eq show ?thesis by simp
  next
    assume "\<exists>i\<le>100. scanDown c x 100 = int i \<and> c ! i = x"
    then obtain i where i: "i \<le> 100" "scanDown c x 100 = int i" "c ! i = x" by blast
    have "i \<le> 50"
    proof (rule ccontr)
      assume "\<not> i \<le> 50"
      with i(1) assms(2) have "c ! i \<noteq> x" by simp
      with i(3) show False by simp
    qed
    with i eq show ?thesis by simp
  qed
qed

lemma capLength_le: "length (capLength c) \<le> 100"
proof (cases "100 < length c")
  case False
  then show ?thesis by (simp add: capLength_def)
next
  case True
  have "lastIndexOf c SP 100 \<le> 100" using lastIndexOf_le [of c SP 100] by simp
  with True show ?thesis
    by (auto simp add: capLength_def Let_def substring_take_int substring_take [of c 100, simplified])
qed

lemma capLength_at_space:
  assumes "100 < length c" and "50 < i" and "i \<le> 100" and "c ! i = SP"
    and "\<forall>j. i < j \<and> j \<le> 100 \<longrightarrow> c ! j \<noteq> SP"
  shows "capLength c = take i c"
proof -
  have "lastIndexOf c SP 100 = int i" using assms(1,3,4,5) by (rule lastIndexOf_found)
  with assms(1,2) show ?thesis by (simp add: capLength_def substring_take)
qed

lemma capLength_hard:
  assumes "100 < length c" and "\<forall>i. 50 < i \<and> i \<le> 100 \<longrightarrow> c ! i \<noteq> SP"
  shows "capLength c = take 100 c"
proof -
  have "lastIndexOf c SP 100 \<le> 50" using assms by (rule lastIndexOf_low)
  with assms(1) show ?thesis
    by (simp add: capLength_def substring_take [of c 100, simplified])
qed


section \<open>Properties of cleanSuggestion\<close>

subsection \<open>Cuts at code point boundaries\<close>

lemma isWs_not_surrogate: "isWs x \<Longrightarrow> \<not> isHigh x \<and> \<not> isLow x"
  by (auto simp add: isWs_def jsWhiteSpace_def isHigh_def isLow_def)

lemma LF_not_low: "\<not> isLow LF"
  by (simp add: LF_def isLow_def)

lemma allCodePoints_Cons:
  "\<not> isHigh x \<or> xs = [] \<or> \<not> isLow (hd xs) \<Longrightarrow>
   allCodePoints C (x # xs) = (C (unat x) \<and> allCodePoints C xs)"
  by (cases xs) auto

lemma allCodePoints_append:
  "xs = [] \<or> ys = [] \<or> \<not> isHigh (last xs) \<or> \<not> isLow (hd ys) \<Longrightarrow>
   allCodePoints C (xs @ ys) = (allCodePoints C xs \<and> allCodePoints C ys)"
proof (induction C xs rule: allCodePoints.induct)
  case (1 C)
  show ?case by simp
next
  case (2 C u)
  then have "\<not> isHigh u \<or> ys = [] \<or> \<not> isLow (hd ys)" by auto
  then show ?case using allCodePoints_Cons [of u ys C] by simp
next
  case (3 C h l r)
  show ?case
  proof (cases "isHigh h \<and> isLow l")
    case True
    from "3.prems" have "r = [] \<or> ys = [] \<or> \<not> isHigh (last r) \<or> \<not> isLow (hd ys)" by auto
    with True "3.IH"(1) have "allCodePoints C (r @ ys) = (allCodePoints C r \<and> allCodePoints C ys)"
      by blast
    with True show ?thesis by simp
  next
    case False
    from "3.prems" have "l # r = [] \<or> ys = [] \<or> \<not> isHigh (last (l # r)) \<or> \<not> isLow (hd ys)"
      by auto
    with False "3.IH"(2)
    have "allCodePoints C ((l # r) @ ys) = (allCodePoints C (l # r) \<and> allCodePoints C ys)"
      by blast
    with False show ?thesis by auto
  qed
qed

lemma allCodePoints_dropWhile_ws:
  assumes "allCodePoints C s"
  shows "allCodePoints C (dropWhile isWs s)"
proof -
  let ?a = "takeWhile isWs s" and ?b = "dropWhile isWs s"
  have "?a = [] \<or> \<not> isHigh (last ?a)"
  proof (cases "?a = []")
    case False
    then have "last ?a \<in> set ?a" by simp
    then have "isWs (last ?a)" by (rule set_takeWhileD [THEN conjunct2])
    then show ?thesis by (simp add: isWs_not_surrogate)
  qed simp
  then have "allCodePoints C (?a @ ?b) = (allCodePoints C ?a \<and> allCodePoints C ?b)"
    by (intro allCodePoints_append) blast
  with assms show ?thesis by simp
qed

lemma trimEnd_decomp: "s = trimEnd s @ rev (takeWhile isWs (rev s))"
proof -
  have "rev s = takeWhile isWs (rev s) @ dropWhile isWs (rev s)" by simp
  then have "rev (rev s) = rev (takeWhile isWs (rev s) @ dropWhile isWs (rev s))" by simp
  then show ?thesis by (simp add: trimEnd_def del: takeWhile_dropWhile_id)
qed

lemma allCodePoints_trimEnd:
  assumes "allCodePoints C s"
  shows "allCodePoints C (trimEnd s)"
proof -
  let ?b = "rev (takeWhile isWs (rev s))"
  have "?b = [] \<or> \<not> isLow (hd ?b)"
  proof (cases "?b = []")
    case False
    then have "hd ?b \<in> set (takeWhile isWs (rev s))"
      by (metis hd_in_set set_rev)
    then have "isWs (hd ?b)" by (rule set_takeWhileD [THEN conjunct2])
    then show ?thesis by (simp add: isWs_not_surrogate)
  qed simp
  then have "allCodePoints C (trimEnd s @ ?b) = (allCodePoints C (trimEnd s) \<and> allCodePoints C ?b)"
    by (intro allCodePoints_append) blast
  with assms trimEnd_decomp [of s] show ?thesis by simp
qed

lemma allCodePoints_stripEcho:
  assumes "allCodePoints C c" and "u = [] \<or> \<not> isHigh (last u)"
  shows "allCodePoints C (stripEcho c u)"
proof (cases "startsWith c u")
  case False
  with assms(1) show ?thesis by (simp add: stripEcho_def)
next
  case True
  then have c: "u @ drop (length u) c = c" by (rule startsWith_append)
  from assms(2)
  have "allCodePoints C (u @ drop (length u) c)
      = (allCodePoints C u \<and> allCodePoints C (drop (length u) c))"
    by (intro allCodePoints_append) blast
  with assms(1) c have "allCodePoints C (drop (length u) c)" by simp
  with True show ?thesis by (simp add: stripEcho_drop)
qed

lemma allCodePoints_firstLine:
  assumes "allCodePoints C c"
  shows "allCodePoints C (firstLine c)"
proof -
  let ?a = "takeWhile (\<lambda>x. x \<noteq> LF) c" and ?b = "dropWhile (\<lambda>x. x \<noteq> LF) c"
  have "?b = [] \<or> \<not> isLow (hd ?b)"
  proof (cases "?b = []")
    case False
    then have "hd ?b = LF" using hd_dropWhile [of "\<lambda>x. x \<noteq> LF" c] by simp
    then show ?thesis by (simp add: LF_not_low)
  qed simp
  then have "allCodePoints C (?a @ ?b) = (allCodePoints C ?a \<and> allCodePoints C ?b)"
    by (intro allCodePoints_append) blast
  with assms show ?thesis by (simp add: firstLine_takeWhile)
qed

lemma allCodePoints_beforeFilter:
  assumes "allCodePoints C s" and "u = [] \<or> \<not> isHigh (last u)"
  shows "allCodePoints C (beforeFilter s u)"
proof -
  have "allCodePoints C (trim s)"
    using assms(1) by (simp add: trim_def trimStart_def allCodePoints_dropWhile_ws allCodePoints_trimEnd)
  then have "allCodePoints C (stripEcho (trim s) u)"
    using assms(2) by (rule allCodePoints_stripEcho)
  then have "allCodePoints C (firstLine (stripEcho (trim s) u))"
    by (rule allCodePoints_firstLine)
  then show ?thesis
    by (simp add: beforeFilter_def trimStart_def allCodePoints_dropWhile_ws)
qed

lemma length_trim_le: "length (trim s) \<le> length s"
proof -
  have "length (trimEnd (trimStart s)) \<le> length (trimStart s)"
    unfolding trimEnd_def using length_dropWhile_le [of isWs "rev (trimStart s)"] by simp
  also have "\<dots> \<le> length s" by (simp add: trimStart_def length_dropWhile_le)
  finally show ?thesis by (simp add: trim_def)
qed

lemma length_stripEcho_le: "length (stripEcho c u) \<le> length c"
  by (simp add: stripEcho_def substringFrom_drop)

lemma length_firstLine_le: "length (firstLine c) \<le> length c"
  by (simp add: firstLine_takeWhile length_takeWhile_le)

lemma length_beforeFilter_le: "length (beforeFilter s u) \<le> length s"
proof -
  have "length (beforeFilter s u) \<le> length (firstLine (stripEcho (trim s) u))"
    by (simp add: beforeFilter_def trimStart_def length_dropWhile_le)
  also have "\<dots> \<le> length (stripEcho (trim s) u)" by (rule length_firstLine_le)
  also have "\<dots> \<le> length (trim s)" by (rule length_stripEcho_le)
  also have "\<dots> \<le> length s" by (rule length_trim_le)
  finally show ?thesis .
qed

lemma unwanted_short_or_punct:
  "length c < 2 \<or> onlySpaceOrPunct P c \<Longrightarrow> isUnwantedSuggestion P c"
  by (simp add: isUnwantedSuggestion_def)


lemma dropWhile_same_length: "length (dropWhile Q s) = length s \<Longrightarrow> dropWhile Q s = s"
proof -
  assume a: "length (dropWhile Q s) = length s"
  have "length (takeWhile Q s @ dropWhile Q s) = length s" by simp
  then have "length (takeWhile Q s) + length (dropWhile Q s) = length s"
    by (simp only: length_append)
  with a have "takeWhile Q s = []" by simp
  then have "takeWhile Q s @ dropWhile Q s = dropWhile Q s" by simp
  then show ?thesis by simp
qed

lemma trim_fixed_trimStart:
  assumes "trim s = s"
  shows "trimStart s = s"
proof -
  have "length (trimEnd (trimStart s)) \<le> length (trimStart s)"
    unfolding trimEnd_def using length_dropWhile_le [of isWs "rev (trimStart s)"] by simp
  with assms have "length s \<le> length (trimStart s)" by (simp add: trim_def)
  moreover have "length (trimStart s) \<le> length s" by (simp add: trimStart_def length_dropWhile_le)
  ultimately have "length (dropWhile isWs s) = length s" by (simp add: trimStart_def)
  then show ?thesis unfolding trimStart_def by (rule dropWhile_same_length)
qed

lemma stripEcho_no_echo: "u = [] \<or> \<not> startsWith s u \<Longrightarrow> stripEcho s u = s"
  by (auto simp add: stripEcho_def substringFrom_drop [of s 0, simplified])

lemma firstLine_single: "LF \<notin> set s \<Longrightarrow> firstLine s = s"
  by (simp add: firstLine_def indexOf_none [THEN iffD2])

lemma beforeFilter_fixed:
  assumes "trim s = s" and "LF \<notin> set s" and "u = [] \<or> \<not> startsWith s u"
  shows "beforeFilter s u = s"
  using assms by (simp add: beforeFilter_def stripEcho_no_echo firstLine_single trim_fixed_trimStart)


subsection \<open>The echo of the user text\<close>

text \<open>
  Claim C4. As stated, for every candidate that equals the user text or starts with it, the
  echo step would continue with the candidate minus the user text. The step runs on the trimmed
  candidate, and the statement that holds is about it: when the trimmed candidate equals the
  user text or starts with it, the step removes exactly the user text from the front of the
  trimmed candidate and nothing more, so that the user text followed by the remainder is the
  trimmed candidate again, and the rest of \<open>cleanSuggestion\<close> continues with that remainder.
\<close>

theorem stripEcho_exact:
  assumes "startsWith (trim s) u"
  shows "u @ stripEcho (trim s) u = trim s
       \<and> stripEcho (trim s) u = drop (length u) (trim s)
       \<and> beforeFilter s u = trimStart (firstLine (drop (length u) (trim s)))"
  using assms by (simp add: stripEcho_drop startsWith_append beforeFilter_def)

text \<open>
  The candidate \<open>"hello "\<close> equals the user text \<open>"hello "\<close>. Trimming leaves \<open>"hello"\<close>,
  which does not start with the user text: nothing is stripped, where the candidate minus the
  user text is the empty string, and the suggestion returned is the echo \<open>"hello"\<close>.
\<close>

theorem stripEcho_exact_counterexample:
  "startsWith (js ''hello '') (js ''hello '')
   \<and> drop (length (js ''hello '')) (js ''hello '') = []
   \<and> stripEcho (trim (js ''hello '')) (js ''hello '') = js ''hello''
   \<and> cleanSuggestion punctSample (js ''hello '') (js ''hello '') = js ''hello''"
  by (simp add: eval_defs)

theorem stripEcho_exact_witness:
  "startsWith (trim (js '' hello world '')) (js ''hello '')
   \<and> stripEcho (trim (js '' hello world '')) (js ''hello '') = js ''world''
   \<and> beforeFilter (js '' hello world '') (js ''hello '') = js ''world''"
proof -
  have h: "startsWith (trim (js '' hello world '')) (js ''hello '')"
    by (simp add: eval_defs)
  have d: "drop (length (js ''hello '')) (trim (js '' hello world '')) = js ''world''"
    by (simp add: eval_defs)
  have r: "trimStart (firstLine (js ''world'')) = js ''world''"
    by (simp add: eval_defs)
  from h d r stripEcho_exact [of "js '' hello world ''" "js ''hello ''"] show ?thesis by simp
qed

subsection \<open>Punctuation and short candidates\<close>

text \<open>
  Claim C2. A candidate that matches \<open>/^[\s\p{P}]+$/u\<close> or has fewer than two code units is
  cleaned to the empty string, for every table \<open>P\<close> of punctuation, provided the user text
  does not end in a high surrogate (every well-formed UTF-16 text is such). The proviso is
  needed: \<open>startsWith\<close> and \<open>substring\<close> count code units, and a user text that ends in
  a high surrogate can cut a surrogate pair of the candidate in two.
\<close>

theorem cleanSuggestion_punct_or_short:
  assumes "onlySpaceOrPunct P s \<or> length s < 2"
    and "u = [] \<or> \<not> isHigh (last u)"
  shows "cleanSuggestion P s u = []"
proof -
  have "length (beforeFilter s u) < 2 \<or> onlySpaceOrPunct P (beforeFilter s u)"
  proof (cases "length s < 2")
    case True
    with length_beforeFilter_le [of s u] show ?thesis by simp
  next
    case False
    with assms(1) have "allCodePoints (spaceOrPunct P) s" by (simp add: onlySpaceOrPunct_def)
    then have "allCodePoints (spaceOrPunct P) (beforeFilter s u)"
      using assms(2) by (rule allCodePoints_beforeFilter)
    then show ?thesis by (cases "beforeFilter s u = []") (simp_all add: onlySpaceOrPunct_def)
  qed
  then have "isUnwantedSuggestion P (beforeFilter s u)" by (rule unwanted_short_or_punct)
  then show ?thesis by (simp add: cleanSuggestion_def)
qed

text \<open>
  The candidate is U+10100 (a punctuation mark outside the Basic Multilingual Plane, the code
  units D800 DD00) followed by an exclamation mark; it matches the expression. The user text is
  the single code unit D800. The echo step leaves DD00 and the exclamation mark; the unpaired
  DD00 is no punctuation, so the filter lets the two code units through.
\<close>

theorem cleanSuggestion_punct_or_short_counterexample:
  "onlySpaceOrPunct punctSample [0xD800, 0xDD00, 0x21]
   \<and> cleanSuggestion punctSample [0xD800, 0xDD00, 0x21] [0xD800] = [0xDD00, 0x21]"
  by (simp add: eval_defs)


theorem cleanSuggestion_punct_or_short_witness:
  "onlySpaceOrPunct punctSample (js ''  ...!? '') \<and> cleanSuggestion punctSample (js ''  ...!? '') (js ''hi'') = []"
proof -
  have h: "onlySpaceOrPunct punctSample (js ''  ...!? '')" by (simp add: eval_defs)
  have u: "\<not> isHigh (last (js ''hi''))" by (simp add: eval_defs)
  from h u cleanSuggestion_punct_or_short [of punctSample "js ''  ...!? ''" "js ''hi''"]
  show ?thesis by blast
qed


subsection \<open>Idempotence\<close>

text \<open>
  The non-empty strings that \<open>cleanSuggestion\<close> returns as they are: the trimmed, single-line,
  wanted strings of at most 100 code units that do not start with a non-empty user text.
\<close>

lemma cleanSuggestion_fixed:
  assumes "trim s = s" and "LF \<notin> set s" and "\<not> isUnwantedSuggestion P s"
    and "length s \<le> 100" and "u = [] \<or> \<not> startsWith s u"
  shows "cleanSuggestion P s u = s"
proof -
  have "beforeFilter s u = s" using assms(1,2,5) by (rule beforeFilter_fixed)
  with assms(3,4) show ?thesis by (simp add: cleanSuggestion_def capLength_def)
qed

lemma length_capLength_le: "length (capLength c) \<le> length c"
proof (cases "100 < length c")
  case False
  then show ?thesis by (simp add: capLength_def)
next
  case True
  have "lastIndexOf c SP 100 \<le> 100" using lastIndexOf_le [of c SP 100] by simp
  with True show ?thesis
    by (auto simp add: capLength_def Let_def substring_take_int substring_take [of c 100, simplified])
qed

lemma trim_same_length:
  assumes "length (trim s) = length s"
  shows "trim s = s"
proof -
  have a: "length (trimEnd (trimStart s)) \<le> length (trimStart s)"
    unfolding trimEnd_def using length_dropWhile_le [of isWs "rev (trimStart s)"] by simp
  have b: "length (trimStart s) \<le> length s" by (simp add: trimStart_def length_dropWhile_le)
  from a b assms have "length (dropWhile isWs s) = length s" by (simp add: trim_def trimStart_def)
  then have ts: "trimStart s = s" unfolding trimStart_def by (rule dropWhile_same_length)
  with assms have "length (dropWhile isWs (rev s)) = length (rev s)"
    by (simp add: trim_def trimEnd_def)
  then have "dropWhile isWs (rev s) = rev s" by (rule dropWhile_same_length)
  with ts show ?thesis by (simp add: trim_def trimEnd_def)
qed

lemma stripEcho_same_length:
  assumes "length (stripEcho c u) = length c"
  shows "u = [] \<or> \<not> startsWith c u"
proof (rule ccontr)
  assume "\<not> (u = [] \<or> \<not> startsWith c u)"
  then have u: "u \<noteq> []" and sw: "startsWith c u" by simp_all
  from sw have "length u \<le> length c" by (metis startsWith_def length_take min.cobounded2 min.commute)
  moreover from sw assms have "length c - length u = length c" by (simp add: stripEcho_drop)
  ultimately show False using u by (cases u) auto
qed

lemma firstLine_same_length:
  assumes "length (firstLine c) = length c"
  shows "LF \<notin> set c"
proof
  assume "LF \<in> set c"
  then have "length (takeWhile (\<lambda>x. x \<noteq> LF) c) < length c"
    by (induction c) auto
  with assms show False by (simp add: firstLine_takeWhile)
qed

lemma cleanSuggestion_fixed_iff:
  assumes "s \<noteq> []"
  shows "cleanSuggestion P s u = s \<longleftrightarrow>
     trim s = s \<and> LF \<notin> set s \<and> \<not> isUnwantedSuggestion P s \<and> length s \<le> 100
       \<and> (u = [] \<or> \<not> startsWith s u)"
proof
  assume fixed: "cleanSuggestion P s u = s"
  let ?t = "trim s"
  let ?e = "stripEcho ?t u"
  let ?l = "firstLine ?e"
  let ?c = "beforeFilter s u"
  from fixed assms have wanted: "\<not> isUnwantedSuggestion P ?c" and cap: "capLength ?c = s"
    by (auto simp add: cleanSuggestion_def Let_def split: if_splits)
  have c_l: "length ?c \<le> length ?l"
    by (simp add: beforeFilter_def trimStart_def length_dropWhile_le)
  have l_e: "length ?l \<le> length ?e" by (rule length_firstLine_le)
  have e_t: "length ?e \<le> length ?t" by (rule length_stripEcho_le)
  have t_s: "length ?t \<le> length s" by (rule length_trim_le)
  from cap have s_c: "length s \<le> length ?c" using length_capLength_le [of ?c] by simp
  from cap have short: "length s \<le> 100" using capLength_le [of ?c] by simp
  from c_l l_e e_t t_s s_c have lens: "length ?t = length s" "length ?e = length ?t"
      "length ?l = length ?e" "length ?c = length s"
    by simp_all
  from lens(1) have t: "?t = s" by (rule trim_same_length)
  from lens(2) have e: "u = [] \<or> \<not> startsWith ?t u" by (rule stripEcho_same_length)
  from lens(3) have l: "LF \<notin> set ?e" by (rule firstLine_same_length)
  from e t have e': "u = [] \<or> \<not> startsWith s u" by simp
  then have "?e = s" using t by (simp add: stripEcho_no_echo)
  with l have l': "LF \<notin> set s" by simp
  have "?c = s" using t l' e' by (rule beforeFilter_fixed)
  with wanted have "\<not> isUnwantedSuggestion P s" by simp
  with t l' short e' show "trim s = s \<and> LF \<notin> set s \<and> \<not> isUnwantedSuggestion P s \<and> length s \<le> 100
       \<and> (u = [] \<or> \<not> startsWith s u)" by simp
next
  assume "trim s = s \<and> LF \<notin> set s \<and> \<not> isUnwantedSuggestion P s \<and> length s \<le> 100
       \<and> (u = [] \<or> \<not> startsWith s u)"
  then show "cleanSuggestion P s u = s" by (simp add: cleanSuggestion_fixed)
qed















subsection \<open>The length cap\<close>

text \<open>
  Claim C5. The suggestion returned never has more than 100 code units. When the text that
  reaches the cap is longer than 100, the result is that text cut at its last space at an index
  of at most 100 if that index is greater than 50, and cut at index 100 if there is no space at
  the indices 51 to 100.
\<close>

theorem cleanSuggestion_length_cap:
  "length (cleanSuggestion P s u) \<le> 100 \<and>
   (\<not> isUnwantedSuggestion P (beforeFilter s u) \<and> 100 < length (beforeFilter s u) \<longrightarrow>
      (\<forall>i. 50 < i \<and> i \<le> 100 \<and> beforeFilter s u ! i = SP
            \<and> (\<forall>j. i < j \<and> j \<le> 100 \<longrightarrow> beforeFilter s u ! j \<noteq> SP)
          \<longrightarrow> cleanSuggestion P s u = take i (beforeFilter s u)) \<and>
      ((\<forall>i. 50 < i \<and> i \<le> 100 \<longrightarrow> beforeFilter s u ! i \<noteq> SP)
          \<longrightarrow> cleanSuggestion P s u = take 100 (beforeFilter s u)))"
proof -
  have len: "length (cleanSuggestion P s u) \<le> 100"
    by (simp add: cleanSuggestion_def Let_def capLength_le)
  have cut: "cleanSuggestion P s u = capLength (beforeFilter s u)"
    if "\<not> isUnwantedSuggestion P (beforeFilter s u)"
    using that by (simp add: cleanSuggestion_def Let_def)
  show ?thesis
    using len cut capLength_at_space [of "beforeFilter s u"] capLength_hard [of "beforeFilter s u"]
    by presburger
qed

theorem cleanSuggestion_length_cap_witness:
  "\<not> isUnwantedSuggestion punctSample (beforeFilter longSample [])
   \<and> 100 < length (beforeFilter longSample [])
   \<and> cleanSuggestion punctSample longSample [] = replicate 60 0x61"
proof -
  have ex: "longSample
      = js ''aaaaaaaaaaaaaaaaaaaaaaaaaaaaaaaaaaaaaaaaaaaaaaaaaaaaaaaaaaaa bbbbbbbbbbbbbbbbbbbbbbbbbbbbbbbbbbbbbbbbbbbbbbbbbbbbbbbbbbbb''"
    by code_simp
  have bf: "beforeFilter longSample [] = longSample"
    unfolding ex by (simp add: eval_defs)
  have unw: "\<not> isUnwantedSuggestion punctSample longSample"
    unfolding ex by (simp add: eval_defs)
  have len: "100 < length longSample" by (simp add: longSample_def)
  have at: "longSample ! 60 = SP" by (simp add: longSample_def nth_append)
  have after: "\<forall>j. 60 < j \<and> j \<le> 100 \<longrightarrow> longSample ! j \<noteq> SP"
    by (auto simp add: longSample_def nth_append nth_Cons' SP_def)
  have tk: "take 60 longSample = replicate 60 0x61" by (simp add: longSample_def)
  from cleanSuggestion_length_cap [of punctSample longSample "[]"] bf unw len at after
  have "cleanSuggestion punctSample longSample [] = take 60 longSample"
    by simp
  with bf unw len tk show ?thesis by simp
qed

section \<open>Properties of the prefix and of getCompletion\<close>

lemma accumulate_run:
  "accumulate acc r
     = (case ending r of None \<Rightarrow> Inr (acc @ concat (yielded r)) | Some e \<Rightarrow> Inl e)"
  by (induction r arbitrary: acc) (simp_all split: option.splits)

lemma yielded_sseFragments:
  "yielded (sseFragments r) = map (\<lambda>d. the (contentOf d)) (filter hasContent (yielded r))"
  by (induction r) (auto simp add: hasContent_def split: option.splits)

lemma ending_sseFragments: "ending (sseFragments r) = ending r"
  by (induction r) (auto split: option.splits)

lemmas mistral_defs = getModel_def mistralSupportsFim_def baseUrl_def fimRequest_def ok_def
  failureMessage_def streamFim_def forwardFim_def mistralGhostModel_def sampleOptions_def
  sampleEnv_def serverError_def okResponse_def sampleEvents_def event_def contentOf_def
  hasContent_def chatOptions_def unloadable_def badGateway_def tableEnv_def tableOptions_def
  decimal.simps

lemmas prefix_defs = buildPrefix_def visibleParts_def editorParts_def fileNameOf_def
  clipboardParts_def getClipboardContext_def userParts_def sampleContext_def

lemma sample_failure:
  "snd (streamFim (sampleEnv None serverError) sampleOptions p [])
     = Throw (Error (js ''FIM streaming failed: 500 Internal Server Error - overloaded''))"
  by (simp add: mistral_defs eval_defs)

lemma sample_success:
  "snd (streamFim (sampleEnv None okResponse) sampleOptions p [])
     = Yield (js ''wor'') (Yield (js ''ld'') Done)"
  by (simp add: mistral_defs eval_defs)

lemma sample_visible:
  "visibleParts (Some sampleContext)
     = [js ''// Code visible in editor:'', LF # js ''// File: main.ts (typescript)'', js ''let x = 1'']"
  by (simp add: visibleParts_def editorParts_def fileNameOf_def sampleContext_def js_def Let_def)

text \<open>
  Claim C6. When the clipboard read gives a text, \<open>buildPrefix\<close> puts the clipboard header and
  the text between the visible code and the user's message exactly when the text has 6 to 499
  code units, and leaves both out otherwise. When the read fails, \<open>buildPrefix\<close> still returns
  a prefix: the one without the clipboard fragment, the visible code and the user's message
  unchanged.
\<close>

theorem buildPrefix_clipboard:
  "buildPrefix (Inr t) userText v
     = join [LF] (visibleParts v
         @ (if 6 \<le> length t \<and> length t \<le> 499 then [LF # js ''// Clipboard content:'', t] else [])
         @ userParts userText)
   \<and> buildPrefix (Inl e) userText v = join [LF] (visibleParts v @ userParts userText)"
  by (auto simp add: buildPrefix_def clipboardParts_def getClipboardContext_def)

theorem buildPrefix_clipboard_witness:
  "buildPrefix (Inr (js ''const a = 1'')) (js ''hi'') (Some sampleContext)
     = js ''// Code visible in editor:'' @ LF # LF # js ''// File: main.ts (typescript)''
         @ LF # js ''let x = 1'' @ LF # LF # js ''// Clipboard content:'' @ LF # js ''const a = 1''
         @ LF # LF # js ''// User'' @ 0x27 # js ''s message:'' @ LF # js ''hi''
   \<and> buildPrefix (Inr (js ''a = 1'')) (js ''hi'') (Some sampleContext)
     = js ''// Code visible in editor:'' @ LF # LF # js ''// File: main.ts (typescript)''
         @ LF # js ''let x = 1'' @ LF # LF # js ''// User'' @ 0x27 # js ''s message:'' @ LF # js ''hi''
   \<and> buildPrefix (Inl (Error (js ''denied''))) (js ''hi'') (Some sampleContext)
     = js ''// Code visible in editor:'' @ LF # LF # js ''// File: main.ts (typescript)''
         @ LF # js ''let x = 1'' @ LF # LF # js ''// User'' @ 0x27 # js ''s message:'' @ LF # js ''hi''"
  using buildPrefix_clipboard [of "js ''const a = 1''" "js ''hi''" "Some sampleContext" "Error (js ''denied'')"]
    buildPrefix_clipboard [of "js ''a = 1''" "js ''hi''" "Some sampleContext" "Error (js ''denied'')"]
  by (simp add: sample_visible userParts_def js_def)

lemma requestCompletion_run:
  assumes "supportsFim gm m"
  shows "suggestion (requestCompletion P gm clipboard m userText v)
       = (case ending (generateFimResponse gm m (buildPrefix clipboard userText v) []) of
            Some e \<Rightarrow> Inl e
          | None \<Rightarrow> Inr (cleanSuggestion P
              (concat (yielded (generateFimResponse gm m (buildPrefix clipboard userText v) [])))
              userText))"
  using assms by (simp add: requestCompletion_def Let_def accumulate_run split: option.splits)

lemma getCompletion_gate:
  assumes "loaded gm m \<or> fst (reload gm m) = Inr True"
  shows "getCompletion P gm clipboard m userText v
       = requestCompletion P gm clipboard (if loaded gm m then m else snd (reload gm m)) userText v"
  using assms by (auto simp add: getCompletion_def split: prod.splits sum.splits)

lemma getCompletion_rejected:
  assumes "\<not> loaded gm m" and "fst (reload gm m) = Inl e"
  shows "suggestion (getCompletion P gm clipboard m userText v) = Inl e
       \<and> fimRequests (getCompletion P gm clipboard m userText v) = []"
  using assms by (auto simp add: getCompletion_def split: prod.splits sum.splits)

text \<open>
  Claim C9. As stated, every failed reload would end in the empty suggestion. The reload can
  fail in two ways, and \<open>getCompletion\<close> awaits it without a handler. What holds: if the model
  is not loaded and the reload answers false, or if the model at the gate (the loaded one, or
  the reloaded one) has no fill-in-the-middle support, then \<open>getCompletion\<close> returns the empty
  suggestion, not an error, and has asked for no completion; if the model is not loaded and
  the reload rejects, \<open>getCompletion\<close> ends with that error, and has asked for no completion
  either.
\<close>

theorem getCompletion_suppressed:
  "((\<not> loaded gm m \<and> fst (reload gm m) = Inr False)
      \<or> (loaded gm m \<and> \<not> supportsFim gm m)
      \<or> (\<not> loaded gm m \<and> fst (reload gm m) = Inr True \<and> \<not> supportsFim gm (snd (reload gm m)))
    \<longrightarrow> suggestion (getCompletion P gm clipboard m userText v) = Inr []
        \<and> fimRequests (getCompletion P gm clipboard m userText v) = [])
   \<and> (\<forall>e. \<not> loaded gm m \<and> fst (reload gm m) = Inl e
    \<longrightarrow> suggestion (getCompletion P gm clipboard m userText v) = Inl e
        \<and> fimRequests (getCompletion P gm clipboard m userText v) = [])"
proof -
  have "suggestion (getCompletion P gm clipboard m userText v) = Inr []
        \<and> fimRequests (getCompletion P gm clipboard m userText v) = []"
    if "(\<not> loaded gm m \<and> fst (reload gm m) = Inr False)
      \<or> (loaded gm m \<and> \<not> supportsFim gm m)
      \<or> (\<not> loaded gm m \<and> fst (reload gm m) = Inr True \<and> \<not> supportsFim gm (snd (reload gm m)))"
    using that
    by (auto simp add: getCompletion_def requestCompletion_def split: prod.splits sum.splits)
  then show ?thesis using getCompletion_rejected [of gm m _ P clipboard userText v] by blast
qed

text \<open>
  A model that is not loaded and whose reload rejects: \<open>getCompletion\<close> ends with the error of
  the reload.
\<close>

theorem getCompletion_suppressed_counterexample:
  "\<not> loaded rejecting False
   \<and> fst (reload rejecting False) = Inl (Error (js ''no profile''))
   \<and> suggestion (getCompletion punctSample rejecting (Inr []) False (js ''hello'') None)
       = Inl (Error (js ''no profile''))
   \<and> suggestion (getCompletion punctSample rejecting (Inr []) False (js ''hello'') None) \<noteq> Inr []"
  by (simp add: getCompletion_def rejecting_def unloadable_def)

theorem getCompletion_suppressed_witness:
  "suggestion (getCompletion punctSample unloadable (Inr []) False (js ''hello'') None) = Inr []
   \<and> fimRequests (getCompletion punctSample unloadable (Inr []) False (js ''hello'') None) = []
   \<and> suggestion (getCompletion punctSample (mistralGhostModel (sampleEnv None okResponse))
        (Inr []) chatOptions (js ''hello'') None) = Inr []
   \<and> fimRequests (getCompletion punctSample (mistralGhostModel (sampleEnv None okResponse))
        (Inr []) chatOptions (js ''hello'') None) = []
   \<and> fimRequests (getCompletion punctSample rejecting (Inr []) False (js ''hello'') None) = []"
proof -
  have a: "\<not> loaded unloadable False \<and> fst (reload unloadable False) = Inr False"
    by (simp add: unloadable_def)
  have b: "loaded (mistralGhostModel (sampleEnv None okResponse)) chatOptions
      \<and> \<not> supportsFim (mistralGhostModel (sampleEnv None okResponse)) chatOptions"
    by (simp add: mistral_defs eval_defs)
  have c: "\<not> loaded rejecting False \<and> fst (reload rejecting False) = Inl (Error (js ''no profile''))"
    by (simp add: rejecting_def unloadable_def)
  from a b c
    getCompletion_suppressed [of unloadable False punctSample "Inr []" "js ''hello''" None]
    getCompletion_suppressed [of "mistralGhostModel (sampleEnv None okResponse)" chatOptions
      punctSample "Inr []" "js ''hello''" None]
    getCompletion_suppressed [of rejecting False punctSample "Inr []" "js ''hello''" None]
  show ?thesis by blast
qed

text \<open>
  Claim C1. As stated, a failed request would come back from \<open>getCompletion\<close> as the empty
  suggestion. \<open>getCompletion\<close> has no handler around \<open>generateFimResponse\<close>: past the two
  gates, when that call throws, \<open>getCompletion\<close> ends with the same error, whatever chunks
  came before; when the call returns, the suggestion is the cleaned concatenation of the
  chunks.
\<close>

theorem getCompletion_transport_failure:
  assumes "loaded gm m \<or> fst (reload gm m) = Inr True"
    and "m' = (if loaded gm m then m else snd (reload gm m))"
    and "supportsFim gm m'"
  shows "(\<forall>e. ending (generateFimResponse gm m' (buildPrefix clipboard userText v) []) = Some e \<longrightarrow>
            suggestion (getCompletion P gm clipboard m userText v) = Inl e)
       \<and> (ending (generateFimResponse gm m' (buildPrefix clipboard userText v) []) = None \<longrightarrow>
            suggestion (getCompletion P gm clipboard m userText v)
              = Inr (cleanSuggestion P
                  (concat (yielded (generateFimResponse gm m' (buildPrefix clipboard userText v) [])))
                  userText))"
proof -
  have "getCompletion P gm clipboard m userText v = requestCompletion P gm clipboard m' userText v"
    using getCompletion_gate [OF assms(1)] assms(2) by simp
  then show ?thesis
    using requestCompletion_run [OF assms(3), of P clipboard userText v] by simp
qed

text \<open>
  A loaded model over a MistralHandler whose endpoint answers 500: the error of \<open>streamFim\<close>
  leaves \<open>getCompletion\<close>.
\<close>

theorem getCompletion_transport_failure_counterexample:
  "\<not> ok serverError
   \<and> suggestion (getCompletion punctSample (mistralGhostModel (sampleEnv None serverError))
         (Inr []) sampleOptions (js ''hello'') None)
       = Inl (Error (js ''FIM streaming failed: 500 Internal Server Error - overloaded''))
   \<and> suggestion (getCompletion punctSample (mistralGhostModel (sampleEnv None serverError))
         (Inr []) sampleOptions (js ''hello'') None)
       \<noteq> Inr []"
  by (simp add: getCompletion_def requestCompletion_def mistral_defs eval_defs)

theorem getCompletion_transport_failure_witness:
  "suggestion (getCompletion punctSample (mistralGhostModel (sampleEnv None serverError))
      (Inr []) sampleOptions (js ''hello '') None)
     = Inl (Error (js ''FIM streaming failed: 500 Internal Server Error - overloaded''))
   \<and> suggestion (getCompletion punctSample (mistralGhostModel (sampleEnv None okResponse))
      (Inr []) sampleOptions (js ''hello '') None)
     = Inr (js ''world'')"
proof -
  let ?bad = "mistralGhostModel (sampleEnv None serverError)"
  let ?good = "mistralGhostModel (sampleEnv None okResponse)"
  have l: "loaded ?bad sampleOptions" "loaded ?good sampleOptions"
    by (simp_all add: mistralGhostModel_def)
  have s: "supportsFim ?bad sampleOptions" "supportsFim ?good sampleOptions"
    by (simp_all add: mistral_defs eval_defs)
  have b: "generateFimResponse ?bad sampleOptions p []
      = Throw (Error (js ''FIM streaming failed: 500 Internal Server Error - overloaded''))" for p
    using sample_failure [of p] by (simp add: mistralGhostModel_def forwardFim_def)
  have g: "generateFimResponse ?good sampleOptions p []
      = Yield (js ''wor'') (Yield (js ''ld'') Done)" for p
    using sample_success [of p] by (simp add: mistralGhostModel_def forwardFim_def)
  have c: "cleanSuggestion punctSample (js ''wor'' @ js ''ld'') (js ''hello '') = js ''world''"
    by (simp add: eval_defs)
  from getCompletion_transport_failure [of ?bad sampleOptions sampleOptions "Inr []" "js ''hello ''" None punctSample]
    getCompletion_transport_failure [of ?good sampleOptions sampleOptions "Inr []" "js ''hello ''" None punctSample]
    l s b g c
  show ?thesis by simp
qed

section \<open>Properties of the MistralHandler\<close>

lemma streamFim_fetched:
  assumes "newURL env (js ''v1/fim/completions'') (baseUrl options (model_id (getModel env options)))
             = Inr endpoint"
    and "fetch env (fimRequest env options prefix suffix endpoint) = Inr r"
  shows "streamFim env options prefix suffix
           = ([fimRequest env options prefix suffix endpoint],
              if ok r then sseFragments (events r)
              else (case bodyText r of
                      Inl e \<Rightarrow> Throw e
                    | Inr errorText \<Rightarrow> Throw (Error (failureMessage r errorText))))"
  using assms by (simp add: streamFim_def Let_def split: sum.splits)

lemma fimRequest_body:
  "body_temperature (body (fimRequest env options prefix suffix endpoint)) = 0.2
   \<and> body_max_tokens (body (fimRequest env options prefix suffix endpoint))
       = (case maxTokens (getModel env options) of None \<Rightarrow> 256 | Some n \<Rightarrow> min 256 n)"
  by (simp add: fimRequest_def Let_def split: option.splits)

lemma streamFim_requests:
  "fst (streamFim env options prefix suffix) = []
   \<or> (\<exists>endpoint. fst (streamFim env options prefix suffix)
          = [fimRequest env options prefix suffix endpoint])"
  by (auto simp add: streamFim_def Let_def split: sum.splits)

lemma getModel_maxTokens:
  "maxTokens (getModel env options)
     = (if includeMaxTokens options then
          info_maxTokens
            (case mistralModels env
                    (case apiModelId options of Some i \<Rightarrow> i | None \<Rightarrow> mistralDefaultModelId env) of
               Some entry \<Rightarrow> entry
             | None \<Rightarrow> defaultModelInfo env)
        else None)"
  by (simp add: getModel_def Let_def)

text \<open>
  Claim C7. As stated, \<open>max_tokens\<close> would be the smaller of 256 and the model's maximum
  whenever the model has one. The handler passes the model's maximum on only when its option
  \<open>includeMaxTokens\<close> is set. What holds: every request that \<open>streamFim\<close> hands to \<open>fetch\<close> has
  the temperature 0.2; its \<open>max_tokens\<close> is the smaller of 256 and the maximum of the model's
  entry when \<open>includeMaxTokens\<close> is set and the entry has a maximum, and 256 otherwise. The
  model's entry is the table's entry for \<open>apiModelId\<close>, or for the default id when the options
  have none, and the default entry when the table has no such entry. When the URL can be built,
  \<open>streamFim\<close> hands exactly one request to \<open>fetch\<close>.
\<close>

theorem streamFim_request_body:
  "(\<forall>request \<in> set (fst (streamFim env options prefix suffix)).
       body_temperature (body request) = 0.2
     \<and> body_max_tokens (body request)
         = (if includeMaxTokens options then
              (case info_maxTokens
                      (case mistralModels env
                              (case apiModelId options of
                                 Some i \<Rightarrow> i | None \<Rightarrow> mistralDefaultModelId env) of
                         Some entry \<Rightarrow> entry
                       | None \<Rightarrow> defaultModelInfo env) of
                 None \<Rightarrow> 256
               | Some n \<Rightarrow> min 256 n)
            else 256))
   \<and> (\<forall>endpoint.
         newURL env (js ''v1/fim/completions'')
           (baseUrl options
              (case apiModelId options of Some i \<Rightarrow> i | None \<Rightarrow> mistralDefaultModelId env))
           = Inr endpoint
       \<longrightarrow> length (fst (streamFim env options prefix suffix)) = 1)"
proof -
  have one: "length (fst (streamFim env options prefix suffix)) = 1"
    if "newURL env (js ''v1/fim/completions'')
           (baseUrl options
              (case apiModelId options of Some i \<Rightarrow> i | None \<Rightarrow> mistralDefaultModelId env))
           = Inr endpoint" for endpoint
    using that by (simp add: streamFim_def getModel_def Let_def split: sum.splits)
  have "body_temperature (body request) = 0.2
     \<and> body_max_tokens (body request)
         = (if includeMaxTokens options then
              (case info_maxTokens
                      (case mistralModels env
                              (case apiModelId options of
                                 Some i \<Rightarrow> i | None \<Rightarrow> mistralDefaultModelId env) of
                         Some entry \<Rightarrow> entry
                       | None \<Rightarrow> defaultModelInfo env) of
                 None \<Rightarrow> 256
               | Some n \<Rightarrow> min 256 n)
            else 256)"
    if "request \<in> set (fst (streamFim env options prefix suffix))" for request
  proof -
    from that streamFim_requests [of env options prefix suffix]
    obtain endpoint where "request = fimRequest env options prefix suffix endpoint" by auto
    then show ?thesis
      using fimRequest_body [of env options prefix suffix endpoint]
      by (simp add: getModel_maxTokens)
  qed
  with one show ?thesis by blast
qed

text \<open>
  The model's entry has the maximum 128 and the option \<open>includeMaxTokens\<close> is not set: the body
  asks for 256 tokens, where the smaller of 256 and the model's maximum is 128.
\<close>

theorem streamFim_request_body_counterexample:
  "apiModelId (tableOptions\<lparr>includeMaxTokens := False\<rparr>) = Some (js ''codestral-2405'')
   \<and> mistralModels tableEnv (js ''codestral-2405'') = Some \<lparr>info_maxTokens = Some 128\<rparr>
   \<and> map (\<lambda>request. body_max_tokens (body request))
         (fst (streamFim tableEnv (tableOptions\<lparr>includeMaxTokens := False\<rparr>) (js ''a'') []))
       = [256]"
  by (simp add: mistral_defs eval_defs)

theorem streamFim_request_body_witness:
  "map (\<lambda>request. (body_max_tokens (body request), body_temperature (body request)))
       (fst (streamFim tableEnv tableOptions (js ''a'') []))
     = [(128, 0.2)]
   \<and> map (\<lambda>request. (body_max_tokens (body request), body_temperature (body request)))
       (fst (streamFim tableEnv sampleOptions (js ''a'') []))
     = [(64, 0.2)]
   \<and> map (\<lambda>request. (body_max_tokens (body request), body_temperature (body request)))
       (fst (streamFim (sampleEnv None okResponse) sampleOptions (js ''a'') []))
     = [(256, 0.2)]"
proof -
  have u: "\<exists>endpoint. newURL env (js ''v1/fim/completions'')
           (baseUrl options
              (case apiModelId options of Some i \<Rightarrow> i | None \<Rightarrow> mistralDefaultModelId env))
           = Inr endpoint"
    if "env = tableEnv \<or> env = sampleEnv None okResponse" for env options
    using that by (auto simp add: tableEnv_def sampleEnv_def)
  have a: "includeMaxTokens tableOptions \<and> includeMaxTokens sampleOptions"
    by (simp add: tableOptions_def sampleOptions_def)
  have b: "mistralModels tableEnv
             (case apiModelId tableOptions of Some i \<Rightarrow> i | None \<Rightarrow> mistralDefaultModelId tableEnv)
           = Some \<lparr>info_maxTokens = Some 128\<rparr>"
    by (simp add: mistral_defs eval_defs)
  have c: "mistralModels tableEnv
             (case apiModelId sampleOptions of Some i \<Rightarrow> i | None \<Rightarrow> mistralDefaultModelId tableEnv)
           = None \<and> defaultModelInfo tableEnv = \<lparr>info_maxTokens = Some 64\<rparr>"
    by (simp add: mistral_defs eval_defs)
  have d: "mistralModels (sampleEnv None okResponse) k = None
      \<and> defaultModelInfo (sampleEnv None okResponse) = \<lparr>info_maxTokens = None\<rparr>" for k
    by (simp add: sampleEnv_def)
  have l: "length xs = 1 \<Longrightarrow> \<forall>x \<in> set xs. Q x \<Longrightarrow> \<exists>x. xs = [x] \<and> Q x" for xs :: "fim_request list" and Q
    by (cases xs) auto
  from streamFim_request_body [of tableEnv tableOptions "js ''a''" "[]"] u [of tableEnv tableOptions] a b
  have 1: "\<exists>x. fst (streamFim tableEnv tableOptions (js ''a'') []) = [x]
      \<and> (body_temperature (body x) = 0.2 \<and> body_max_tokens (body x) = 128)"
    by (intro l) auto
  from streamFim_request_body [of tableEnv sampleOptions "js ''a''" "[]"] u [of tableEnv sampleOptions] a c
  have 2: "\<exists>x. fst (streamFim tableEnv sampleOptions (js ''a'') []) = [x]
      \<and> (body_temperature (body x) = 0.2 \<and> body_max_tokens (body x) = 64)"
    by (intro l) auto
  from streamFim_request_body [of "sampleEnv None okResponse" sampleOptions "js ''a''" "[]"]
    u [of "sampleEnv None okResponse" sampleOptions] a d
  have 3: "\<exists>x. fst (streamFim (sampleEnv None okResponse) sampleOptions (js ''a'') []) = [x]
      \<and> (body_temperature (body x) = 0.2 \<and> body_max_tokens (body x) = 256)"
    by (intro l) auto
  from 1 2 3 show ?thesis by auto
qed

text \<open>
  Claim C8. As stated, every response that is not 2xx would make the stream fail with an error
  that carries the status code and the body text. The body is read with \<open>response.text()\<close>,
  which can reject. What holds, for the response that answers the request of a \<open>streamFim\<close>
  call: if its status is outside 200 to 299, the run yields no fragment and ends in an error;
  when the body can be read, the error's message holds the status code and the body text, and
  when reading the body rejects, the error is that rejection. If the status is within 200 to
  299, the fragments are the contents of the events that have a non-empty
  \<open>choices[0].delta.content\<close>, in the order of arrival, and the run ends as the event stream
  ends.
\<close>

theorem streamFim_response:
  assumes "newURL env (js ''v1/fim/completions'') (baseUrl options (model_id (getModel env options)))
             = Inr endpoint"
    and "fetch env (fimRequest env options prefix suffix endpoint) = Inr r"
  shows "(status r < 200 \<or> 299 < status r \<longrightarrow>
            yielded (snd (streamFim env options prefix suffix)) = []
            \<and> ending (snd (streamFim env options prefix suffix)) \<noteq> None
            \<and> (\<forall>errorText. bodyText r = Inr errorText \<longrightarrow>
                  snd (streamFim env options prefix suffix)
                    = Throw (Error (js ''FIM streaming failed: '' @ decimal (status r) @ js '' ''
                                     @ statusText r @ js '' - '' @ errorText)))
            \<and> (\<forall>e. bodyText r = Inl e \<longrightarrow> snd (streamFim env options prefix suffix) = Throw e))
       \<and> (200 \<le> status r \<and> status r \<le> 299 \<longrightarrow>
            yielded (snd (streamFim env options prefix suffix))
              = map (\<lambda>d. the (contentOf d)) (filter hasContent (yielded (events r)))
            \<and> ending (snd (streamFim env options prefix suffix)) = ending (events r))"
proof -
  have run: "snd (streamFim env options prefix suffix)
      = (if ok r then sseFragments (events r)
         else (case bodyText r of
                 Inl e \<Rightarrow> Throw e
               | Inr errorText \<Rightarrow> Throw (Error (failureMessage r errorText))))"
    using streamFim_fetched [OF assms] by simp
  have bad: "snd (streamFim env options prefix suffix)
      = (case bodyText r of
           Inl e \<Rightarrow> Throw e
         | Inr errorText \<Rightarrow> Throw (Error (failureMessage r errorText)))"
    if "status r < 200 \<or> 299 < status r"
    using that run by (auto simp add: ok_def)
  have good: "snd (streamFim env options prefix suffix) = sseFragments (events r)"
    if "200 \<le> status r \<and> status r \<le> 299"
    using that run by (simp add: ok_def)
  show ?thesis
    using bad good
    by (auto simp add: failureMessage_def yielded_sseFragments ending_sseFragments
        split: sum.splits)
qed

text \<open>
  The endpoint answers 502 and reading the body rejects: the stream ends with that rejection,
  whose message holds neither the status code nor a body text.
\<close>

theorem streamFim_response_counterexample:
  "\<not> ok badGateway
   \<and> fst (streamFim (sampleEnv None badGateway) sampleOptions (js ''a'') [])
       = [fimRequest (sampleEnv None badGateway) sampleOptions (js ''a'') []
            (js ''https://codestral.mistral.ai/v1/fim/completions'')]
   \<and> snd (streamFim (sampleEnv None badGateway) sampleOptions (js ''a'') [])
       = Throw (Error (js ''terminated''))"
  by (simp add: streamFim_def getModel_def baseUrl_def ok_def sampleEnv_def sampleOptions_def
      badGateway_def eval_defs)

theorem streamFim_response_witness:
  "snd (streamFim (sampleEnv None serverError) sampleOptions (js ''a'') [])
     = Throw (Error (js ''FIM streaming failed: 500 Internal Server Error - overloaded''))
   \<and> snd (streamFim (sampleEnv None badGateway) sampleOptions (js ''a'') [])
     = Throw (Error (js ''terminated''))
   \<and> yielded (snd (streamFim (sampleEnv None okResponse) sampleOptions (js ''a'') []))
     = [js ''wor'', js ''ld'']"
proof -
  let ?ep = "js ''https://codestral.mistral.ai/v1/fim/completions''"
  have u: "newURL (sampleEnv k r) (js ''v1/fim/completions'')
             (baseUrl sampleOptions (model_id (getModel (sampleEnv k r) sampleOptions))) = Inr ?ep" for k r
    by (simp add: mistral_defs eval_defs)
  have f: "fetch (sampleEnv k r) q = Inr r" for k r q
    by (simp add: sampleEnv_def)
  have e: "decimal (status serverError) = js ''500''"
    by (simp add: serverError_def decimal.simps js_def)
  have y: "map (\<lambda>d. the (contentOf d)) (filter hasContent (yielded (events okResponse)))
      = [js ''wor'', js ''ld'']"
    by (simp add: mistral_defs js_def)
  from streamFim_response [where env = "sampleEnv None serverError" and options = sampleOptions
        and prefix = "js ''a''" and suffix = "[]" and r = serverError, OF u f]
    streamFim_response [where env = "sampleEnv None okResponse" and options = sampleOptions
        and prefix = "js ''a''" and suffix = "[]" and r = okResponse, OF u f]
    streamFim_response [where env = "sampleEnv None badGateway" and options = sampleOptions
        and prefix = "js ''a''" and suffix = "[]" and r = badGateway, OF u f] e y
  show ?thesis by (simp add: serverError_def okResponse_def badGateway_def js_def)
qed

text \<open>
  Claim C10. \<open>completeFim\<close> returns the concatenation, in order, of the fragments of
  \<open>streamFim\<close> when the stream ends normally, and throws the stream's error otherwise.
\<close>

theorem completeFim_concat:
  "completeFim env options prefix suffix
     = (case ending (snd (streamFim env options prefix suffix)) of
          None \<Rightarrow> Inr (concat (yielded (snd (streamFim env options prefix suffix))))
        | Some e \<Rightarrow> Inl e)"
  by (simp add: completeFim_def accumulate_run split: option.splits)

theorem completeFim_concat_witness:
  "completeFim (sampleEnv None okResponse) sampleOptions (js ''a'') [] = Inr (js ''world'')
   \<and> completeFim (sampleEnv None serverError) sampleOptions (js ''a'') []
       = Inl (Error (js ''FIM streaming failed: 500 Internal Server Error - overloaded''))"
  using completeFim_concat [of "sampleEnv None okResponse" sampleOptions "js ''a''" "[]"]
    completeFim_concat [of "sampleEnv None serverError" sampleOptions "js ''a''" "[]"]
    sample_success [of "js ''a''"] sample_failure [of "js ''a''"]
  by (simp add: js_def)

end
